theory Spec2Isabelle
  imports Main
begin

section \<open>Python values and dictionaries\<close>

text \<open>
  The values a playbook can put into the \<open>tags\<close> dictionary are scalars. \<open>str\<close> is
  Python's string conversion: a string is kept, an integer is written in decimal, a
  boolean and \<open>None\<close> are written by their names.
\<close>

datatype pyval = PStr string | PInt int | PBool bool | PNone

definition digit :: "nat \<Rightarrow> char" where
  "digit n = ''0123456789'' ! n"

fun str_nat :: "nat \<Rightarrow> string" where
  "str_nat n = (if n < 10 then [digit n] else str_nat (n div 10) @ [digit (n mod 10)])"

declare str_nat.simps [simp del]

fun str :: "pyval \<Rightarrow> string" where
  "str (PStr s) = s"
| "str (PInt i) = (if i < 0 then CHR ''-'' # str_nat (nat (- i)) else str_nat (nat i))"
| "str (PBool b) = (if b then ''True'' else ''False'')"
| "str PNone = ''None''"

text \<open>
  A Python \<open>dict\<close> is a list of items with one item for each key, in iteration
  order. \<open>key in d\<close> and \<open>d[key]\<close> read it through \<open>map_of\<close>; \<open>d[key] = value\<close>
  replaces the value of a key that is there and appends a new item otherwise.
\<close>

type_synonym ('k, 'v) dict = "('k \<times> 'v) list"

fun setitem :: "('k, 'v) dict \<Rightarrow> 'k \<Rightarrow> 'v \<Rightarrow> ('k, 'v) dict" where
  "setitem [] k v = [(k, v)]"
| "setitem ((k', v') # d) k v = (if k' = k then (k, v) # d else (k', v') # setitem d k v)"

text \<open>\<open>dict(pairs)\<close>: the pairs are stored one after the other, a later pair for a key
  replacing the earlier one.\<close>

definition dict_of_pairs :: "('k \<times> 'v) list \<Rightarrow> ('k, 'v) dict" where
  "dict_of_pairs ps = fold (\<lambda>(k, v) d. setitem d k v) ps []"

text \<open>
  A tag as the load balancing API exchanges it: the dictionary
  \<open>{'Key': key, 'Value': value}\<close>.
\<close>

datatype tag = Tag (Key: string) (Value: string)

text \<open>
  Iterating over such a two-key dictionary yields its keys, the strings \<open>'Key'\<close> and
  \<open>'Value'\<close>. Their order is the interpreter's: insertion order where dictionaries are
  ordered, the order of the hash table otherwise. It is a parameter of the model.
\<close>

definition record_keys :: "bool \<Rightarrow> tag \<Rightarrow> string \<times> string" where
  "record_keys insertion_ordered r =
     (if insertion_ordered then (''Key'', ''Value'') else (''Value'', ''Key''))"

text \<open>
  \<open>d.update(seq)\<close> with a list \<open>seq\<close>: a list has no \<open>keys\<close> method, so every
  element is read as a sequence of length two, its first member the key and its second
  the value to store. An element that is a two-key dictionary is read through its
  iteration, that is, as the pair of its keys.
\<close>

fun update_seq :: "bool \<Rightarrow> (string, string) dict \<Rightarrow> tag list \<Rightarrow> (string, string) dict" where
  "update_seq io d [] = d"
| "update_seq io d (r # rs) =
     (case record_keys io r of (k, v) \<Rightarrow> update_seq io (setitem d k v) rs)"

section \<open>The load balancing client\<close>

text \<open>
  The boto3 client is a collaborator: its three operations are parameters of the model,
  over a state \<open>'s\<close> of the provider. \<open>describe_tags\<close> answers with the list
  \<open>response['TagDescriptions']\<close>, each description given by its \<open>'Tags'\<close>, a list of
  key and value; an operation that raises returns the exception.
\<close>

datatype boto_error = ClientError string | OtherBotoError string

record 's elb_client =
  describe_tags :: "'s \<Rightarrow> string \<Rightarrow> boto_error + (string \<times> string) list list"
  add_tags :: "'s \<Rightarrow> string \<Rightarrow> tag list \<Rightarrow> boto_error + 's"
  remove_tags :: "'s \<Rightarrow> string \<Rightarrow> string list \<Rightarrow> boto_error + 's"

datatype api_call =
    DescribeTags string
  | AddTags string "tag list"
  | RemoveTags string "string list"

datatype py_exc = TypeError | IndexError | Boto boto_error

text \<open>The \<open>tags\<close> value handed to \<open>exit_json\<close>: a dictionary, or a list of tag records.\<close>

datatype tags_value = TagsDict "(string, string) dict" | TagsList "tag list"

text \<open>The keys of the \<open>tags\<close> value a run returns, one for each entry.\<close>

fun keys_of :: "tags_value \<Rightarrow> string list" where
  "keys_of (TagsDict d) = map fst d"
| "keys_of (TagsList rs) = map Key rs"

datatype outcome = ExitJson bool tags_value | FailJson string | Uncaught py_exc

datatype state_param = Present | Absent | ListTags

section \<open>ec2\_elb\_tag\<close>

text \<open>
  \<open>get_lb_tags\<close>: a \<open>ClientError\<close> of \<open>describe_tags\<close> ends the module through
  \<open>fail_json\<close> with the error's message; any other exception is not caught, and
  neither is the \<open>IndexError\<close> of \<open>[0]\<close> on an empty list of descriptions.
\<close>

definition get_lb_tags :: "'s elb_client \<Rightarrow> 's \<Rightarrow> string \<Rightarrow> outcome + (string, string) dict" where
  "get_lb_tags elb s name =
     (case describe_tags elb s name of
        Inl (ClientError msg) \<Rightarrow> Inl (FailJson msg)
      | Inl (OtherBotoError msg) \<Rightarrow> Inl (Uncaught (Boto (OtherBotoError msg)))
      | Inr response \<Rightarrow>
          (case response of
             [] \<Rightarrow> Inl (Uncaught IndexError)
           | tags # _ \<Rightarrow> Inr (dict_of_pairs tags)))"

text \<open>
  The comprehensions of \<open>main\<close>. \<open>for key in tags\<close> with \<open>tags[key]\<close> in its body
  ranges over the items of \<open>tags\<close>;
  \<open>key not in actual_tags or actual_tags[key] != str(tags[key])\<close> is the test of
  the first, \<open>key in tags and actual_tags[key] == str(tags[key])\<close> of the second.
\<close>

definition items_to_add :: "(string, string) dict \<Rightarrow> (string, pyval) dict \<Rightarrow> (string \<times> pyval) list" where
  "items_to_add actual_tags tags =
     filter (\<lambda>(key, v). case map_of actual_tags key of
                           None \<Rightarrow> True
                         | Some a \<Rightarrow> a \<noteq> str v) tags"

definition tag_keys_to_add :: "(string, string) dict \<Rightarrow> (string, pyval) dict \<Rightarrow> string list" where
  "tag_keys_to_add actual_tags tags = map fst (items_to_add actual_tags tags)"

definition tags_to_add :: "(string, string) dict \<Rightarrow> (string, pyval) dict \<Rightarrow> tag list" where
  "tags_to_add actual_tags tags =
     map (\<lambda>(key, v). Tag key (str v)) (items_to_add actual_tags tags)"

definition tag_keys_to_remove :: "(string, string) dict \<Rightarrow> (string, pyval) dict \<Rightarrow> string list" where
  "tag_keys_to_remove actual_tags tags =
     map fst (filter (\<lambda>(key, a). case map_of tags key of
                                    None \<Rightarrow> False
                                  | Some v \<Rightarrow> a = str v) actual_tags)"

text \<open>
  The branch \<open>state == 'present'\<close>, entered with the fetched \<open>actual_tags\<close>. With
  \<open>tags\<close> left at \<open>None\<close> the comprehension iterates over \<open>None\<close>. Each result is the
  outcome, the calls made to the client after the fetch, and the provider's state.
\<close>

definition present_branch ::
  "bool \<Rightarrow> 's elb_client \<Rightarrow> 's \<Rightarrow> string \<Rightarrow> (string, pyval) dict option \<Rightarrow> bool \<Rightarrow>
   (string, string) dict \<Rightarrow> outcome \<times> api_call list \<times> 's" where
  "present_branch io elb s name tags check_mode actual_tags =
     (case tags of
        None \<Rightarrow> (Uncaught TypeError, [], s)
      | Some tgs \<Rightarrow>
          if tag_keys_to_add actual_tags tgs \<noteq> [] then
            if \<not> check_mode then
              (case add_tags elb s name (tags_to_add actual_tags tgs) of
                 Inl e \<Rightarrow> (Uncaught (Boto e), [AddTags name (tags_to_add actual_tags tgs)], s)
               | Inr s' \<Rightarrow>
                   (case get_lb_tags elb s' name of
                      Inl out \<Rightarrow>
                        (out, [AddTags name (tags_to_add actual_tags tgs), DescribeTags name], s')
                    | Inr actual_tags' \<Rightarrow>
                        (ExitJson True (TagsDict actual_tags'),
                         [AddTags name (tags_to_add actual_tags tgs), DescribeTags name], s')))
            else
              (ExitJson True (TagsDict (update_seq io actual_tags (tags_to_add actual_tags tgs))),
               [], s)
          else (ExitJson False (TagsDict actual_tags), [], s))"

text \<open>
  The branch \<open>state == 'absent'\<close>. The comprehension iterates over \<open>actual_tags\<close> and
  evaluates \<open>key in tags\<close> for each of its keys: with \<open>tags\<close> left at \<open>None\<close> that
  raises at the first key, and is never evaluated when \<open>actual_tags\<close> is empty.
  In check mode the records are built with \<open>str(actual_tags[key])\<close>, and \<open>str\<close>
  leaves the string that is stored there as it is.
\<close>

definition absent_branch ::
  "'s elb_client \<Rightarrow> 's \<Rightarrow> string \<Rightarrow> (string, pyval) dict option \<Rightarrow> bool \<Rightarrow>
   (string, string) dict \<Rightarrow> outcome \<times> api_call list \<times> 's" where
  "absent_branch elb s name tags check_mode actual_tags =
     (case tags of
        None \<Rightarrow>
          (if actual_tags = [] then (ExitJson False (TagsDict actual_tags), [], s)
           else (Uncaught TypeError, [], s))
      | Some tgs \<Rightarrow>
          if tag_keys_to_remove actual_tags tgs \<noteq> [] then
            if \<not> check_mode then
              (case remove_tags elb s name (tag_keys_to_remove actual_tags tgs) of
                 Inl e \<Rightarrow>
                   (Uncaught (Boto e), [RemoveTags name (tag_keys_to_remove actual_tags tgs)], s)
               | Inr s' \<Rightarrow>
                   (case get_lb_tags elb s' name of
                      Inl out \<Rightarrow>
                        (out, [RemoveTags name (tag_keys_to_remove actual_tags tgs),
                               DescribeTags name], s')
                    | Inr actual_tags' \<Rightarrow>
                        (ExitJson True (TagsDict actual_tags'),
                         [RemoveTags name (tag_keys_to_remove actual_tags tgs),
                          DescribeTags name], s')))
            else
              (ExitJson True
                 (TagsList (map (\<lambda>(key, a). Tag key a)
                    (filter (\<lambda>(key, a). key \<notin> set (tag_keys_to_remove actual_tags tgs))
                       actual_tags))),
               [], s)
          else (ExitJson False (TagsDict actual_tags), [], s))"

text \<open>
  \<open>reconcile\<close> is \<open>main\<close> from the fetch of the actual tags to \<open>exit_json\<close>, run
  with the client \<open>elb\<close> that \<open>main\<close> has built.
\<close>

definition reconcile ::
  "bool \<Rightarrow> 's elb_client \<Rightarrow> 's \<Rightarrow> state_param \<Rightarrow> string \<Rightarrow> (string, pyval) dict option \<Rightarrow>
   bool \<Rightarrow> outcome \<times> api_call list \<times> 's" where
  "reconcile io elb s state name tags check_mode =
     (case get_lb_tags elb s name of
        Inl out \<Rightarrow> (out, [DescribeTags name], s)
      | Inr actual_tags \<Rightarrow>
          (case (case state of
                   Present \<Rightarrow> present_branch io elb s name tags check_mode actual_tags
                 | Absent \<Rightarrow> absent_branch elb s name tags check_mode actual_tags
                 | ListTags \<Rightarrow> (ExitJson False (TagsDict actual_tags), [], s)) of
             (out, calls, s') \<Rightarrow> (out, DescribeTags name # calls, s')))"

text \<open>
  \<open>main\<close>: without boto3 the module fails at once, and so it does when the client
  cannot be built for want of a region (\<open>elb = None\<close> here).
\<close>

definition main ::
  "bool \<Rightarrow> bool \<Rightarrow> 's elb_client option \<Rightarrow> 's \<Rightarrow> state_param \<Rightarrow> string \<Rightarrow>
   (string, pyval) dict option \<Rightarrow> bool \<Rightarrow> outcome \<times> api_call list \<times> 's" where
  "main io has_boto3 elb s state name tags check_mode =
     (if \<not> has_boto3 then (FailJson ''boto3 is required for this module'', [], s)
      else case elb of
             None \<Rightarrow>
               (FailJson (''You must specify a region. You can also configure your region ''
                          @ ''by running '' @ [CHR 0x22] @ ''aws configure'' @ [CHR 0x22] @ ''.''),
                [], s)
           | Some c \<Rightarrow> reconcile io c s state name tags check_mode)"

section \<open>A provider that stores tags\<close>

text \<open>
  The provider the idempotence properties are stated against, and the one the concrete
  runs use: it keeps, for each load balancer it knows, the tags as a dictionary.
  \<open>describe_tags\<close> reports them in one description, \<open>add_tags\<close> stores each tag
  under its key, \<open>remove_tags\<close> deletes the keys it is given, and each of them raises a
  \<open>ClientError\<close> for a load balancer that does not exist.
\<close>

type_synonym elb_store = "string \<Rightarrow> (string, string) dict option"

definition not_found :: "string \<Rightarrow> boto_error" where
  "not_found name = ClientError (''There is no ACTIVE Load Balancer named '' @ name)"

definition store_tags :: "tag list \<Rightarrow> (string, string) dict \<Rightarrow> (string, string) dict" where
  "store_tags ts d = fold (\<lambda>t d. setitem d (Key t) (Value t)) ts d"

definition delete_keys :: "string list \<Rightarrow> (string, string) dict \<Rightarrow> (string, string) dict" where
  "delete_keys ks d = filter (\<lambda>(k, v). k \<notin> set ks) d"

definition store_client :: "elb_store elb_client" where
  "store_client =
     \<lparr> describe_tags = (\<lambda>s name. case s name of
                                    None \<Rightarrow> Inl (not_found name)
                                  | Some d \<Rightarrow> Inr [d]),
       add_tags = (\<lambda>s name ts. case s name of
                                  None \<Rightarrow> Inl (not_found name)
                                | Some d \<Rightarrow> Inr (s(name \<mapsto> store_tags ts d))),
       remove_tags = (\<lambda>s name ks. case s name of
                                     None \<Rightarrow> Inl (not_found name)
                                   | Some d \<Rightarrow> Inr (s(name \<mapsto> delete_keys ks d))) \<rparr>"

text \<open>A state of the provider is well formed when no load balancer has two tags of one key.\<close>

definition store_ok :: "elb_store \<Rightarrow> string \<Rightarrow> (string, string) dict \<Rightarrow> bool" where
  "store_ok s name d = (s name = Some d \<and> distinct (map fst d))"

section \<open>boto3\_wait\<close>

text \<open>
  The waiter of the client is a collaborator too: \<open>get_waiter\<close> gives its
  configuration or raises, and \<open>wait\<close>, the polling loop of the library, returns or
  raises an exception with a message. Every call of one of them is recorded.
\<close>

record waiter_config =
  delay :: int
  max_attempts :: int

record 'p boto_client =
  waiter_names :: "string list"
  get_waiter :: "string \<Rightarrow> string + waiter_config"
  wait :: "string \<Rightarrow> waiter_config \<Rightarrow> 'p \<Rightarrow> string option"

datatype 'p waiter_call = GetWaiter string | Wait string waiter_config 'p

datatype wait_outcome = WaitExit bool | WaitFail string

definition unknown_waiter_msg :: "string \<Rightarrow> string \<Rightarrow> string" where
  "unknown_waiter_msg until service =
     ''Waiter '' @ [CHR 0x22] @ until @ [CHR 0x22] @ '' does not exist in '' @ [CHR 0x22]
     @ service @ [CHR 0x22] @ '' client.''"

text \<open>
  \<open>main\<close> of \<open>boto3_wait\<close>. \<open>client\<close> is what \<open>boto3.client\<close> returned, or the
  message of the exception it raised. \<open>fail_json\<close> leaves the module through
  \<open>SystemExit\<close>, which \<open>except Exception\<close> does not catch, so the test of the
  waiter's name ends the run there.
\<close>

definition wait_main ::
  "bool \<Rightarrow> string + 'p boto_client \<Rightarrow> string \<Rightarrow> string \<Rightarrow> 'p \<Rightarrow> int option \<Rightarrow> int option \<Rightarrow>
   wait_outcome \<times> 'p waiter_call list" where
  "wait_main has_boto3 client service until parameters dly max_att =
     (if \<not> has_boto3 then (WaitFail ''boto3 is required for this module'', [])
      else case client of
             Inl msg \<Rightarrow> (WaitFail msg, [])
           | Inr c \<Rightarrow>
               if until \<notin> set (waiter_names c) then (WaitFail (unknown_waiter_msg until service), [])
               else case get_waiter c until of
                      Inl msg \<Rightarrow> (WaitFail msg, [GetWaiter until])
                    | Inr config \<Rightarrow>
                        let config1 = (case dly of None \<Rightarrow> config
                                       | Some d \<Rightarrow> config\<lparr>delay := d\<rparr>);
                            config2 = (case max_att of None \<Rightarrow> config1
                                       | Some m \<Rightarrow> config1\<lparr>max_attempts := m\<rparr>)
                        in (case wait c until config2 parameters of
                              Some msg \<Rightarrow>
                                (WaitFail msg, [GetWaiter until, Wait until config2 parameters])
                            | None \<Rightarrow>
                                (WaitExit False, [GetWaiter until, Wait until config2 parameters])))"

section \<open>Inputs of the concrete runs\<close>

text \<open>A provider that knows one load balancer, \<open>my-lb\<close>, with two tags.\<close>

definition my_lb :: elb_store where
  "my_lb = Map.empty(''my-lb'' \<mapsto> [(''env'', ''prod''), (''tier'', ''web'')])"

text \<open>The same load balancer with no tag yet.\<close>

definition new_lb :: elb_store where
  "new_lb = Map.empty(''my-lb'' \<mapsto> [])"

text \<open>A client whose answer to \<open>describe_tags\<close> lists one key twice.\<close>

definition echo_client :: "unit elb_client" where
  "echo_client =
     \<lparr> describe_tags = (\<lambda>s name. Inr [[(''env'', ''prod''), (''tier'', ''web''), (''env'', ''test'')]]),
       add_tags = (\<lambda>s name ts. Inr s),
       remove_tags = (\<lambda>s name ks. Inr s) \<rparr>"

text \<open>A client of the EMR service with three waiters.\<close>

definition emr_client :: "unit boto_client" where
  "emr_client =
     \<lparr> waiter_names = [''cluster_running'', ''cluster_terminated'', ''step_complete''],
       get_waiter = (\<lambda>n. Inr \<lparr> delay = 30, max_attempts = 60 \<rparr>),
       wait = (\<lambda>n config p. None) \<rparr>"

section \<open>Facts about dictionaries\<close>

lemma keys_setitem: "set (map fst (setitem d k v)) = insert k (set (map fst d))"
  by (induction d k v rule: setitem.induct) auto

lemma distinct_setitem: "distinct (map fst d) \<Longrightarrow> distinct (map fst (setitem d k v))"
proof (induction d k v rule: setitem.induct)
  case (1 k v)
  then show ?case by simp
next
  case (2 k' v' d k v)
  have "k' \<noteq> k \<Longrightarrow> k' \<notin> set (map fst (setitem d k v))"
    using "2.prems" by (simp only: keys_setitem) auto
  with 2 show ?case by auto
qed

lemma map_of_setitem: "map_of (setitem d k v) = (map_of d)(k \<mapsto> v)"
  by (induction d k v rule: setitem.induct) auto

lemma setitem_fresh: "k \<notin> set (map fst d) \<Longrightarrow> setitem d k v = d @ [(k, v)]"
  by (induction d k v rule: setitem.induct) auto

lemma distinct_fold_setitem:
  "distinct (map fst d) \<Longrightarrow> distinct (map fst (fold (\<lambda>(k, v) d. setitem d k v) ps d))"
  by (induction ps arbitrary: d) (auto simp: distinct_setitem)

lemma keys_fold_setitem:
  "set (map fst (fold (\<lambda>(k, v) d. setitem d k v) ps d)) = set (map fst d) \<union> set (map fst ps)"
proof (induction ps arbitrary: d)
  case Nil
  then show ?case by simp
next
  case (Cons p ps)
  obtain k v where p: "p = (k, v)" by (cases p)
  have "set (map fst (fold (\<lambda>(k, v) d. setitem d k v) ps (setitem d k v)))
        = set (map fst (setitem d k v)) \<union> set (map fst ps)"
    by (rule Cons.IH)
  also have "\<dots> = insert k (set (map fst d)) \<union> set (map fst ps)"
    by (simp only: keys_setitem)
  finally show ?case using p by simp
qed

lemma distinct_dict_of_pairs: "distinct (map fst (dict_of_pairs ps))"
  by (simp add: dict_of_pairs_def distinct_fold_setitem)

lemma keys_dict_of_pairs: "set (map fst (dict_of_pairs ps)) = set (map fst ps)"
  by (simp add: dict_of_pairs_def keys_fold_setitem del: set_map)

lemma fold_setitem_fresh:
  "distinct (map fst ps) \<Longrightarrow> set (map fst d) \<inter> set (map fst ps) = {} \<Longrightarrow>
   fold (\<lambda>(k, v) d. setitem d k v) ps d = d @ ps"
proof (induction ps arbitrary: d)
  case Nil
  then show ?case by simp
next
  case (Cons p ps)
  obtain k v where p: "p = (k, v)" by (cases p)
  from Cons.prems p have fresh: "k \<notin> set (map fst d)" by auto
  from Cons.prems p have "set (map fst (d @ [(k, v)])) \<inter> set (map fst ps) = {}" by auto
  with Cons.IH [of "d @ [(k, v)]"] Cons.prems
  have "fold (\<lambda>(k, v) d. setitem d k v) ps (d @ [(k, v)]) = (d @ [(k, v)]) @ ps" by simp
  with fresh p show ?case by (simp add: setitem_fresh)
qed

lemma dict_of_pairs_dict: "distinct (map fst ps) \<Longrightarrow> dict_of_pairs ps = ps"
  using fold_setitem_fresh [of ps "[]"] by (simp add: dict_of_pairs_def)

lemma distinct_update_seq:
  "distinct (map fst d) \<Longrightarrow> distinct (map fst (update_seq io d rs))"
  by (induction rs arbitrary: d) (auto simp: distinct_setitem split: prod.splits)

lemma get_lb_tags_distinct: "get_lb_tags elb s name = Inr d \<Longrightarrow> distinct (map fst d)"
  by (auto simp: get_lb_tags_def distinct_dict_of_pairs
           split: sum.splits boto_error.splits list.splits)

lemma get_lb_tags_store:
  "store_ok s name d \<Longrightarrow> get_lb_tags store_client s name = Inr d"
  by (simp add: store_ok_def get_lb_tags_def store_client_def dict_of_pairs_dict)

lemma my_lb_ok: "store_ok my_lb ''my-lb'' [(''env'', ''prod''), (''tier'', ''web'')]"
  by (simp add: store_ok_def my_lb_def)

lemma new_lb_ok: "store_ok new_lb ''my-lb'' []"
  by (simp add: store_ok_def new_lb_def)

section \<open>List mode\<close>

text \<open>
  Claim C6. In list mode, whatever \<open>tags\<close> holds (also \<open>None\<close>) and in check mode or
  not, a run whose fetch succeeds reports \<open>changed=False\<close> with the fetched tags; the
  fetch is the only call made to the client, and the provider's state is the one the run
  started in.
\<close>

theorem list_mode_reports_only:
  "get_lb_tags elb s name = Inr actual \<Longrightarrow>
   reconcile io elb s ListTags name tags check_mode =
     (ExitJson False (TagsDict actual), [DescribeTags name], s)"
  by (simp add: reconcile_def)

theorem list_mode_reports_only_witness:
  "get_lb_tags store_client my_lb ''my-lb'' = Inr [(''env'', ''prod''), (''tier'', ''web'')] \<and>
   reconcile True store_client my_lb ListTags ''my-lb'' (Some [(''env'', PStr ''staging'')]) False =
     (ExitJson False (TagsDict [(''env'', ''prod''), (''tier'', ''web'')]),
      [DescribeTags ''my-lb''], my_lb)"
proof -
  have h: "get_lb_tags store_client my_lb ''my-lb'' = Inr [(''env'', ''prod''), (''tier'', ''web'')]"
    by (rule get_lb_tags_store [OF my_lb_ok])
  from list_mode_reports_only [OF h] h show ?thesis by simp
qed

section \<open>The fetch of the actual tags\<close>

text \<open>
  Claim C7. In each of the three modes the first call made to the client is
  \<open>describe_tags\<close>. When that call raises, the run ends as a failure, through
  \<open>fail_json\<close> with the message of a \<open>ClientError\<close> and as an uncaught exception
  otherwise; no other call is made and the provider's state is unchanged.
\<close>

theorem fetch_first_and_fatal:
  "(\<exists>out calls s'. reconcile io elb s state name tags check_mode
                     = (out, DescribeTags name # calls, s')) \<and>
   (describe_tags elb s name = Inl e \<longrightarrow>
      reconcile io elb s state name tags check_mode =
        ((case e of ClientError msg \<Rightarrow> FailJson msg
                  | OtherBotoError msg \<Rightarrow> Uncaught (Boto e)), [DescribeTags name], s))"
  by (auto simp: reconcile_def get_lb_tags_def
           split: sum.splits boto_error.splits list.splits prod.splits)

theorem fetch_first_and_fatal_witness:
  "describe_tags store_client my_lb ''other-lb'' = Inl (not_found ''other-lb'') \<and>
   reconcile True store_client my_lb Present ''other-lb'' (Some [(''env'', PStr ''prod'')]) False =
     (FailJson ''There is no ACTIVE Load Balancer named other-lb'', [DescribeTags ''other-lb''], my_lb)"
proof -
  have h: "describe_tags store_client my_lb ''other-lb'' = Inl (not_found ''other-lb'')"
    by (simp add: store_client_def my_lb_def)
  from fetch_first_and_fatal [of True store_client my_lb Present "''other-lb''"
      "Some [(''env'', PStr ''prod'')]" False "not_found ''other-lb''"] h
  show ?thesis by (simp add: not_found_def)
qed

section \<open>An unknown waiter\<close>

text \<open>
  Claim C8. With boto3 present and the client built, a waiter name that is not among
  the client's \<open>waiter_names\<close> ends the run with the message that the waiter does not
  exist; neither \<open>get_waiter\<close> nor \<open>wait\<close> has been called.
\<close>

theorem unknown_waiter_fails_fast:
  "until \<notin> set (waiter_names c) \<Longrightarrow>
   wait_main True (Inr c) service until parameters dly max_att =
     (WaitFail (unknown_waiter_msg until service), [])"
  by (simp add: wait_main_def)

theorem unknown_waiter_fails_fast_witness:
  "''bogus'' \<notin> set (waiter_names emr_client) \<and>
   wait_main True (Inr emr_client) ''emr'' ''bogus'' () (Some 30) (Some 50) =
     (WaitFail (unknown_waiter_msg ''bogus'' ''emr''), [])"
proof -
  have h: "''bogus'' \<notin> set (waiter_names emr_client)"
    by (simp add: emr_client_def)
  from unknown_waiter_fails_fast [OF h] h show ?thesis by simp
qed

section \<open>The tags to add and the keys to remove\<close>

lemma tag_keys_to_add_empty: "tag_keys_to_add actual desired = [] \<longleftrightarrow> tags_to_add actual desired = []"
  by (simp add: tag_keys_to_add_def tags_to_add_def)

lemma differs_iff:
  "(case map_of actual k of None \<Rightarrow> True | Some a \<Rightarrow> a \<noteq> x) \<longleftrightarrow>
   (map_of actual k = None \<or> (\<exists>a. map_of actual k = Some a \<and> a \<noteq> x))"
  by (cases "map_of actual k") simp_all

lemma matches_iff:
  "(case map_of desired k of None \<Rightarrow> False | Some v \<Rightarrow> a = str v) \<longleftrightarrow>
   (\<exists>v. map_of desired k = Some v \<and> a = str v)"
  by (cases "map_of desired k") simp_all

lemma set_tags_to_add:
  assumes "distinct (map fst desired)"
  shows "set (tags_to_add actual desired) =
       {Tag k (str v) |k v. map_of desired k = Some v \<and>
          (map_of actual k = None \<or> (\<exists>a. map_of actual k = Some a \<and> a \<noteq> str v))}"
    (is "?L = ?R")
proof (rule set_eqI)
  fix t
  have "t \<in> ?L \<longleftrightarrow> (\<exists>k v. (k, v) \<in> set desired \<and>
          (map_of actual k = None \<or> (\<exists>a. map_of actual k = Some a \<and> a \<noteq> str v)) \<and> t = Tag k (str v))"
    unfolding tags_to_add_def items_to_add_def set_map set_filter image_iff differs_iff
    by (simp add: split_beta Bex_def)
  also have "\<dots> \<longleftrightarrow> t \<in> ?R"
    using assms by (simp only: map_of_eq_Some_iff mem_Collect_eq) blast
  finally show "t \<in> ?L \<longleftrightarrow> t \<in> ?R" .
qed

lemma set_tag_keys_to_remove:
  assumes "distinct (map fst actual)"
  shows "set (tag_keys_to_remove actual desired) =
       {k. \<exists>a v. map_of actual k = Some a \<and> map_of desired k = Some v \<and> a = str v}"
    (is "?L = ?R")
proof (rule set_eqI)
  fix k
  have "k \<in> ?L \<longleftrightarrow> (\<exists>a. (k, a) \<in> set actual \<and> (\<exists>v. map_of desired k = Some v \<and> a = str v))"
    unfolding tag_keys_to_remove_def set_map set_filter image_iff matches_iff
    by (simp add: split_beta Bex_def)
  also have "\<dots> \<longleftrightarrow> k \<in> ?R"
    using assms by (simp only: map_of_eq_Some_iff mem_Collect_eq) blast
  finally show "k \<in> ?L \<longleftrightarrow> k \<in> ?R" .
qed

section \<open>Present mode\<close>

text \<open>
  Claim C2. In present mode, for the fetched \<open>actual\<close> tags and a \<open>desired\<close>
  dictionary, the tags to add are exactly the \<open>(k, str(desired[k]))\<close> for the keys
  \<open>k\<close> of \<open>desired\<close> that are absent from \<open>actual\<close> or whose actual value differs
  from \<open>str(desired[k])\<close>. When there is none, the run reports \<open>changed=False\<close> with
  the actual tags and the fetch is the only call made; otherwise a run that is not in
  check mode hands exactly these tags to \<open>add_tags\<close> right after the fetch. A desired
  integer \<open>80\<close> under a key that is not there yet is added as the string \<open>80\<close>.
\<close>

theorem present_adds_the_difference:
  assumes fetch: "get_lb_tags elb s name = Inr actual"
    and dict: "distinct (map fst desired)"
  shows
    "set (tags_to_add actual desired) =
       {Tag k (str v) |k v. map_of desired k = Some v \<and>
          (map_of actual k = None \<or> (\<exists>a. map_of actual k = Some a \<and> a \<noteq> str v))} \<and>
     (tags_to_add actual desired = [] \<longrightarrow>
        reconcile io elb s Present name (Some desired) check_mode =
          (ExitJson False (TagsDict actual), [DescribeTags name], s)) \<and>
     (tags_to_add actual desired \<noteq> [] \<longrightarrow>
        (\<exists>out calls s'. reconcile io elb s Present name (Some desired) False =
           (out, DescribeTags name # AddTags name (tags_to_add actual desired) # calls, s'))) \<and>
     (map_of desired k = Some (PInt 80) \<and> map_of actual k = None \<longrightarrow>
        Tag k ''80'' \<in> set (tags_to_add actual desired))"
proof (intro conjI impI)
  show diff: "set (tags_to_add actual desired) =
       {Tag k (str v) |k v. map_of desired k = Some v \<and>
          (map_of actual k = None \<or> (\<exists>a. map_of actual k = Some a \<and> a \<noteq> str v))}"
    by (rule set_tags_to_add [OF dict])
  show "reconcile io elb s Present name (Some desired) check_mode =
          (ExitJson False (TagsDict actual), [DescribeTags name], s)"
    if "tags_to_add actual desired = []"
    using that fetch by (simp add: reconcile_def present_branch_def tag_keys_to_add_empty)
  show "\<exists>out calls s'. reconcile io elb s Present name (Some desired) False =
           (out, DescribeTags name # AddTags name (tags_to_add actual desired) # calls, s')"
    if "tags_to_add actual desired \<noteq> []"
    using that fetch
    by (simp add: reconcile_def present_branch_def tag_keys_to_add_empty split: sum.splits)
  show "Tag k ''80'' \<in> set (tags_to_add actual desired)"
    if "map_of desired k = Some (PInt 80) \<and> map_of actual k = None"
  proof -
    have "str (PInt 80) = ''80''"
      by (simp add: str_nat.simps digit_def)
    with that have "\<exists>k' v. Tag k ''80'' = Tag k' (str v) \<and> map_of desired k' = Some v \<and>
          (map_of actual k' = None \<or> (\<exists>a. map_of actual k' = Some a \<and> a \<noteq> str v))"
      by (intro exI [of _ k] exI [of _ "PInt 80"]) simp
    then show ?thesis
      unfolding diff by simp
  qed
qed

theorem present_adds_the_difference_witness:
  "get_lb_tags store_client new_lb ''my-lb'' = Inr [] \<and>
   distinct (map fst [(''port'', PInt 80)]) \<and>
   tags_to_add [] [(''port'', PInt 80)] = [Tag ''port'' ''80''] \<and>
   (\<exists>out calls s'. reconcile True store_client new_lb Present ''my-lb'' (Some [(''port'', PInt 80)]) False =
      (out, DescribeTags ''my-lb'' # AddTags ''my-lb'' [Tag ''port'' ''80''] # calls, s')) \<and>
   get_lb_tags store_client my_lb ''my-lb'' = Inr [(''env'', ''prod''), (''tier'', ''web'')] \<and>
   tags_to_add [(''env'', ''prod''), (''tier'', ''web'')] [(''env'', PStr ''prod'')] = [] \<and>
   reconcile True store_client my_lb Present ''my-lb'' (Some [(''env'', PStr ''prod'')]) False =
     (ExitJson False (TagsDict [(''env'', ''prod''), (''tier'', ''web'')]), [DescribeTags ''my-lb''], my_lb)"
proof -
  have h: "get_lb_tags store_client new_lb ''my-lb'' = Inr []"
    by (rule get_lb_tags_store [OF new_lb_ok])
  have d: "distinct (map fst [(''port'', PInt 80)])"
    by simp
  have t: "tags_to_add [] [(''port'', PInt 80)] = [Tag ''port'' ''80'']"
    by (simp add: tags_to_add_def items_to_add_def str_nat.simps digit_def)
  from present_adds_the_difference [OF h d, of True False "''port''"] t
  have a: "\<exists>out calls s'. reconcile True store_client new_lb Present ''my-lb'' (Some [(''port'', PInt 80)]) False =
      (out, DescribeTags ''my-lb'' # AddTags ''my-lb'' [Tag ''port'' ''80''] # calls, s')"
    by simp
  have h': "get_lb_tags store_client my_lb ''my-lb'' = Inr [(''env'', ''prod''), (''tier'', ''web'')]"
    by (rule get_lb_tags_store [OF my_lb_ok])
  have d': "distinct (map fst [(''env'', PStr ''prod'')])"
    by simp
  have t': "tags_to_add [(''env'', ''prod''), (''tier'', ''web'')] [(''env'', PStr ''prod'')] = []"
    by (simp add: tags_to_add_def items_to_add_def)
  from present_adds_the_difference [OF h' d', of True False "''env''"] t'
  have b: "reconcile True store_client my_lb Present ''my-lb'' (Some [(''env'', PStr ''prod'')]) False =
     (ExitJson False (TagsDict [(''env'', ''prod''), (''tier'', ''web'')]), [DescribeTags ''my-lb''], my_lb)"
    by simp
  from h d t a h' t' b show ?thesis by simp
qed

section \<open>Absent mode\<close>

text \<open>
  Claim C3. In absent mode the keys to remove are exactly the keys of \<open>actual\<close> that
  are keys of \<open>desired\<close> with \<open>actual[k] = str(desired[k])\<close>, and a run that is not
  in check mode hands exactly these keys to \<open>remove_tags\<close> right after the fetch.
  When every desired value differs from the actual one, the run reports
  \<open>changed=False\<close> with the actual tags and makes no call but the fetch. A key that
  \<open>actual\<close> does not have is never among the keys to remove.
\<close>

theorem absent_removes_matching_values:
  assumes fetch: "get_lb_tags elb s name = Inr actual"
  shows
    "set (tag_keys_to_remove actual desired) =
       {k. \<exists>a v. map_of actual k = Some a \<and> map_of desired k = Some v \<and> a = str v} \<and>
     (tag_keys_to_remove actual desired \<noteq> [] \<longrightarrow>
        (\<exists>out calls s'. reconcile io elb s Absent name (Some desired) False =
           (out, DescribeTags name # RemoveTags name (tag_keys_to_remove actual desired) # calls, s'))) \<and>
     ((\<forall>k v. map_of desired k = Some v \<longrightarrow> map_of actual k \<noteq> Some (str v)) \<longrightarrow>
        reconcile io elb s Absent name (Some desired) check_mode =
          (ExitJson False (TagsDict actual), [DescribeTags name], s)) \<and>
     (\<forall>k. map_of actual k = None \<longrightarrow> k \<notin> set (tag_keys_to_remove actual desired))"
proof -
  have keys: "set (tag_keys_to_remove actual desired) =
       {k. \<exists>a v. map_of actual k = Some a \<and> map_of desired k = Some v \<and> a = str v}"
    by (rule set_tag_keys_to_remove [OF get_lb_tags_distinct [OF fetch]])
  have call: "\<exists>out calls s'. reconcile io elb s Absent name (Some desired) False =
           (out, DescribeTags name # RemoveTags name (tag_keys_to_remove actual desired) # calls, s')"
    if "tag_keys_to_remove actual desired \<noteq> []"
    using that fetch by (simp add: reconcile_def absent_branch_def split: sum.splits)
  have none: "reconcile io elb s Absent name (Some desired) check_mode =
          (ExitJson False (TagsDict actual), [DescribeTags name], s)"
    if "\<forall>k v. map_of desired k = Some v \<longrightarrow> map_of actual k \<noteq> Some (str v)"
  proof -
    from that have "{k. \<exists>a v. map_of actual k = Some a \<and> map_of desired k = Some v \<and> a = str v} = {}"
      by blast
    with keys have "set (tag_keys_to_remove actual desired) = {}" by simp
    then have "tag_keys_to_remove actual desired = []" by simp
    with fetch show ?thesis by (simp add: reconcile_def absent_branch_def)
  qed
  have ignored: "\<forall>k. map_of actual k = None \<longrightarrow> k \<notin> set (tag_keys_to_remove actual desired)"
    unfolding keys by simp
  show ?thesis
    using keys call none ignored by (intro conjI impI) assumption+
qed

theorem absent_removes_matching_values_witness:
  "get_lb_tags store_client my_lb ''my-lb'' = Inr [(''env'', ''prod''), (''tier'', ''web'')] \<and>
   reconcile True store_client my_lb Absent ''my-lb'' (Some [(''env'', PStr ''staging'')]) False =
     (ExitJson False (TagsDict [(''env'', ''prod''), (''tier'', ''web'')]), [DescribeTags ''my-lb''], my_lb) \<and>
   tag_keys_to_remove [(''env'', ''prod''), (''tier'', ''web'')] [(''env'', PStr ''prod'')] \<noteq> [] \<and>
   (\<exists>out calls s'. reconcile True store_client my_lb Absent ''my-lb'' (Some [(''env'', PStr ''prod'')]) False =
      (out, DescribeTags ''my-lb'' # RemoveTags ''my-lb'' [''env''] # calls, s'))"
proof -
  have h: "get_lb_tags store_client my_lb ''my-lb'' = Inr [(''env'', ''prod''), (''tier'', ''web'')]"
    by (rule get_lb_tags_store [OF my_lb_ok])
  have differ: "\<forall>k v. map_of [(''env'', PStr ''staging'')] k = Some v \<longrightarrow>
                  map_of [(''env'', ''prod''), (''tier'', ''web'')] k \<noteq> Some (str v)"
    by auto
  have rm: "tag_keys_to_remove [(''env'', ''prod''), (''tier'', ''web'')] [(''env'', PStr ''prod'')] = [''env'']"
    by (simp add: tag_keys_to_remove_def)
  from absent_removes_matching_values [OF h, of "[(''env'', PStr ''staging'')]" True False] differ
  have a: "reconcile True store_client my_lb Absent ''my-lb'' (Some [(''env'', PStr ''staging'')]) False =
     (ExitJson False (TagsDict [(''env'', ''prod''), (''tier'', ''web'')]), [DescribeTags ''my-lb''], my_lb)"
    by blast
  from absent_removes_matching_values [OF h, of "[(''env'', PStr ''prod'')]" True False] rm
  have b: "\<exists>out calls s'. reconcile True store_client my_lb Absent ''my-lb'' (Some [(''env'', PStr ''prod'')]) False =
      (out, DescribeTags ''my-lb'' # RemoveTags ''my-lb'' [''env''] # calls, s')"
    by simp
  from h a b rm show ?thesis by simp
qed

section \<open>Unique keys\<close>

lemma keys_of_records: "Key \<circ> (\<lambda>(key, a). Tag key a) = fst"
  by (simp add: fun_eq_iff)

lemma get_lb_tags_no_exit: "get_lb_tags elb s name \<noteq> Inl (ExitJson changed t)"
  by (simp add: get_lb_tags_def split: sum.splits boto_error.splits list.splits)

lemma present_branch_distinct:
  assumes "distinct (map fst actual)"
    and "present_branch io elb s name tags check_mode actual = (ExitJson changed t, calls, s')"
  shows "distinct (keys_of t)"
proof (cases tags)
  case None
  with assms(2) show ?thesis by (simp add: present_branch_def)
next
  case (Some tgs)
  show ?thesis
  proof (cases "tag_keys_to_add actual tgs \<noteq> []")
    case False
    with Some assms show ?thesis by (auto simp: present_branch_def)
  next
    case True
    show ?thesis
    proof (cases check_mode)
      case True
      with \<open>tag_keys_to_add actual tgs \<noteq> []\<close> Some assms show ?thesis
        by (auto simp: present_branch_def distinct_update_seq)
    next
      case False
      with \<open>tag_keys_to_add actual tgs \<noteq> []\<close> Some assms(2) show ?thesis
        by (auto simp: present_branch_def get_lb_tags_no_exit split: sum.splits
              dest: get_lb_tags_distinct)
    qed
  qed
qed

lemma absent_branch_distinct:
  assumes "distinct (map fst actual)"
    and "absent_branch elb s name tags check_mode actual = (ExitJson changed t, calls, s')"
  shows "distinct (keys_of t)"
proof (cases tags)
  case None
  with assms show ?thesis by (auto simp: absent_branch_def split: if_splits)
next
  case (Some tgs)
  show ?thesis
  proof (cases "tag_keys_to_remove actual tgs \<noteq> []")
    case False
    with Some assms show ?thesis by (auto simp: absent_branch_def)
  next
    case True
    show ?thesis
    proof (cases check_mode)
      case True
      with \<open>tag_keys_to_remove actual tgs \<noteq> []\<close> Some assms show ?thesis
        by (auto simp: absent_branch_def keys_of_records distinct_map_filter)
    next
      case False
      with \<open>tag_keys_to_remove actual tgs \<noteq> []\<close> Some assms(2) show ?thesis
        by (auto simp: absent_branch_def get_lb_tags_no_exit split: sum.splits
              dest: get_lb_tags_distinct)
    qed
  qed
qed

text \<open>
  Claim C9. \<open>dict(pairs)\<close> has one entry for each key that occurs in the pairs, so the
  tags \<open>get_lb_tags\<close> returns have no key twice; and the \<open>tags\<close> value of every
  run that ends in \<open>exit_json\<close>, in each mode and in check mode or not, has no key
  twice either.
\<close>

theorem tag_sets_have_unique_keys:
  "distinct (map fst (dict_of_pairs ps)) \<and>
   set (map fst (dict_of_pairs ps)) = set (map fst ps) \<and>
   (get_lb_tags elb s name = Inr actual \<longrightarrow> distinct (map fst actual)) \<and>
   (reconcile io elb s state name tags check_mode = (ExitJson changed t, calls, s') \<longrightarrow>
      distinct (keys_of t))"
proof (intro conjI impI)
  show "distinct (map fst (dict_of_pairs ps))"
    by (rule distinct_dict_of_pairs)
  show "set (map fst (dict_of_pairs ps)) = set (map fst ps)"
    by (rule keys_dict_of_pairs)
  show "distinct (map fst actual)" if "get_lb_tags elb s name = Inr actual"
    using that by (rule get_lb_tags_distinct)
  show "distinct (keys_of t)"
    if run: "reconcile io elb s state name tags check_mode = (ExitJson changed t, calls, s')"
  proof (cases "get_lb_tags elb s name")
    case (Inl out)
    with run have "out = ExitJson changed t"
      by (simp add: reconcile_def)
    with Inl show ?thesis
      by (simp add: get_lb_tags_no_exit)
  next
    case (Inr actual_tags)
    then have d: "distinct (map fst actual_tags)"
      by (rule get_lb_tags_distinct)
    show ?thesis
    proof (cases state)
      case Present
      with run Inr obtain calls' where
        "present_branch io elb s name tags check_mode actual_tags = (ExitJson changed t, calls', s')"
        by (auto simp: reconcile_def split: prod.splits)
      with d show ?thesis by (rule present_branch_distinct)
    next
      case Absent
      with run Inr obtain calls' where
        "absent_branch elb s name tags check_mode actual_tags = (ExitJson changed t, calls', s')"
        by (auto simp: reconcile_def split: prod.splits)
      with d show ?thesis by (rule absent_branch_distinct)
    next
      case ListTags
      with run Inr d show ?thesis
        by (auto simp: reconcile_def)
    qed
  qed
qed

theorem tag_sets_have_unique_keys_witness:
  "get_lb_tags echo_client () ''my-lb'' = Inr [(''env'', ''test''), (''tier'', ''web'')] \<and>
   reconcile True echo_client () Absent ''my-lb'' (Some [(''tier'', PStr ''web'')]) True =
     (ExitJson True (TagsList [Tag ''env'' ''test'']), [DescribeTags ''my-lb''], ()) \<and>
   distinct (map fst [(''env'', ''test''), (''tier'', ''web'')]) \<and>
   distinct (keys_of (TagsList [Tag ''env'' ''test'']))"
proof -
  have h: "get_lb_tags echo_client () ''my-lb'' = Inr [(''env'', ''test''), (''tier'', ''web'')]"
    by (simp add: get_lb_tags_def echo_client_def dict_of_pairs_def)
  have r: "reconcile True echo_client () Absent ''my-lb'' (Some [(''tier'', PStr ''web'')]) True =
     (ExitJson True (TagsList [Tag ''env'' ''test'']), [DescribeTags ''my-lb''], ())"
    by (simp add: reconcile_def h absent_branch_def tag_keys_to_remove_def)
  from tag_sets_have_unique_keys [of "[]" echo_client "()" "''my-lb''"
      "[(''env'', ''test''), (''tier'', ''web'')]" True Absent "Some [(''tier'', PStr ''web'')]"
      True True "TagsList [Tag ''env'' ''test'']" "[DescribeTags ''my-lb'']" "()"] h r
  show ?thesis by simp
qed

section \<open>The tags parameter left out\<close>

text \<open>
  Claim C10, as stated, is false for absent mode on a load balancer without tags: the
  comprehension iterates over the empty \<open>actual_tags\<close>, \<open>key in tags\<close> is never
  evaluated, and the run ends with \<open>changed=False\<close> and the empty dictionary.
\<close>

theorem omitted_tags_absent_empty_counterexample:
  "reconcile True store_client new_lb Absent ''my-lb'' None False =
     (ExitJson False (TagsDict []), [DescribeTags ''my-lb''], new_lb)"
  by (simp add: reconcile_def get_lb_tags_store [OF new_lb_ok] absent_branch_def)

text \<open>
  Claim C10, amended. After a successful fetch, with \<open>tags\<close> left at \<open>None\<close>: in
  present mode the run ends with an uncaught \<open>TypeError\<close>; in absent mode it does so
  when the actual tags are not empty, and reports \<open>changed=False\<close> with the empty
  dictionary when they are empty. No call but the fetch is made. With the empty
  dictionary for \<open>tags\<close> both modes report \<open>changed=False\<close> with the actual tags.
\<close>

theorem omitted_tags:
  "get_lb_tags elb s name = Inr actual \<Longrightarrow>
   reconcile io elb s Present name None check_mode =
     (Uncaught TypeError, [DescribeTags name], s) \<and>
   (actual \<noteq> [] \<longrightarrow>
      reconcile io elb s Absent name None check_mode =
        (Uncaught TypeError, [DescribeTags name], s)) \<and>
   (actual = [] \<longrightarrow>
      reconcile io elb s Absent name None check_mode =
        (ExitJson False (TagsDict []), [DescribeTags name], s)) \<and>
   reconcile io elb s Present name (Some []) check_mode =
     (ExitJson False (TagsDict actual), [DescribeTags name], s) \<and>
   reconcile io elb s Absent name (Some []) check_mode =
     (ExitJson False (TagsDict actual), [DescribeTags name], s)"
  by (simp add: reconcile_def present_branch_def absent_branch_def
        tag_keys_to_add_def items_to_add_def tag_keys_to_remove_def)

theorem omitted_tags_witness:
  "get_lb_tags store_client my_lb ''my-lb'' = Inr [(''env'', ''prod''), (''tier'', ''web'')] \<and>
   reconcile True store_client my_lb Present ''my-lb'' None False =
     (Uncaught TypeError, [DescribeTags ''my-lb''], my_lb) \<and>
   reconcile True store_client my_lb Absent ''my-lb'' None False =
     (Uncaught TypeError, [DescribeTags ''my-lb''], my_lb) \<and>
   get_lb_tags store_client new_lb ''my-lb'' = Inr [] \<and>
   reconcile True store_client new_lb Present ''my-lb'' None False =
     (Uncaught TypeError, [DescribeTags ''my-lb''], new_lb) \<and>
   reconcile True store_client new_lb Absent ''my-lb'' None False =
     (ExitJson False (TagsDict []), [DescribeTags ''my-lb''], new_lb)"
proof -
  have h: "get_lb_tags store_client my_lb ''my-lb'' = Inr [(''env'', ''prod''), (''tier'', ''web'')]"
    by (rule get_lb_tags_store [OF my_lb_ok])
  have h': "get_lb_tags store_client new_lb ''my-lb'' = Inr []"
    by (rule get_lb_tags_store [OF new_lb_ok])
  from omitted_tags [OF h, of True False] omitted_tags [OF h', of True False] h h'
  show ?thesis by simp
qed

section \<open>Check mode\<close>

text \<open>
  Claim C1 at a concrete input. The load balancer has no tag and the desired tags are
  \<open>Name: uberlb\<close> and \<open>env: prod\<close>. In check mode \<open>actual_tags.update\<close> receives
  the list of tag records and stores the two keys of each record as one entry, so the
  run returns \<open>{'Key': 'Value'}\<close> (or \<open>{'Value': 'Key'}\<close>, by the interpreter's
  iteration order); the run that is not in check mode returns the two desired tags.
\<close>

theorem dry_run_present_stores_key_value:
  "reconcile True store_client new_lb Present ''my-lb''
     (Some [(''Name'', PStr ''uberlb''), (''env'', PStr ''prod'')]) True =
     (ExitJson True (TagsDict [(''Key'', ''Value'')]), [DescribeTags ''my-lb''], new_lb) \<and>
   reconcile False store_client new_lb Present ''my-lb''
     (Some [(''Name'', PStr ''uberlb''), (''env'', PStr ''prod'')]) True =
     (ExitJson True (TagsDict [(''Value'', ''Key'')]), [DescribeTags ''my-lb''], new_lb) \<and>
   fst (reconcile True store_client new_lb Present ''my-lb''
     (Some [(''Name'', PStr ''uberlb''), (''env'', PStr ''prod'')]) False) =
     ExitJson True (TagsDict [(''Name'', ''uberlb''), (''env'', ''prod'')])"
  by (simp add: reconcile_def get_lb_tags_store [OF new_lb_ok] present_branch_def
        tag_keys_to_add_def tags_to_add_def items_to_add_def record_keys_def
        store_client_def new_lb_def store_tags_def get_lb_tags_def dict_of_pairs_def)

text \<open>
  Claim C4 at a concrete input. The load balancer has the tags \<open>env: prod\<close> and
  \<open>tier: web\<close>, and \<open>env: prod\<close> is to be absent. In check mode the run returns the
  list of records \<open>[{'Key': 'tier', 'Value': 'web'}]\<close>; the run that is not in check
  mode returns the dictionary \<open>{'tier': 'web'}\<close>.
\<close>

theorem dry_run_absent_returns_records:
  "reconcile True store_client my_lb Absent ''my-lb'' (Some [(''env'', PStr ''prod'')]) True =
     (ExitJson True (TagsList [Tag ''tier'' ''web'']), [DescribeTags ''my-lb''], my_lb) \<and>
   fst (reconcile True store_client my_lb Absent ''my-lb'' (Some [(''env'', PStr ''prod'')]) False) =
     ExitJson True (TagsDict [(''tier'', ''web'')])"
  by (simp add: reconcile_def get_lb_tags_store [OF my_lb_ok] absent_branch_def
        tag_keys_to_remove_def store_client_def my_lb_def delete_keys_def
        get_lb_tags_def dict_of_pairs_def)

section \<open>Running twice\<close>

text \<open>
  Claim C5, as stated, is false when the first run has nothing to do: with
  \<open>env: prod\<close> desired on a load balancer that has it, the first run already reports
  \<open>changed=False\<close>.
\<close>

theorem first_run_unchanged_counterexample:
  "reconcile True store_client my_lb Present ''my-lb'' (Some [(''env'', PStr ''prod'')]) False =
     (ExitJson False (TagsDict [(''env'', ''prod''), (''tier'', ''web'')]),
      [DescribeTags ''my-lb''], my_lb)"
  by (simp add: reconcile_def get_lb_tags_store [OF my_lb_ok] present_branch_def
        tag_keys_to_add_def items_to_add_def)

lemma distinct_store_tags: "distinct (map fst d) \<Longrightarrow> distinct (map fst (store_tags ts d))"
  unfolding store_tags_def by (induction ts arbitrary: d) (simp_all add: distinct_setitem)

lemma store_tags_other:
  "k \<notin> Key ` set ts \<Longrightarrow> map_of (store_tags ts d) k = map_of d k"
  unfolding store_tags_def by (induction ts arbitrary: d) (simp_all add: map_of_setitem)

lemma store_tags_stored:
  "distinct (map Key ts) \<Longrightarrow> Tag k x \<in> set ts \<Longrightarrow> map_of (store_tags ts d) k = Some x"
proof (induction ts arbitrary: d)
  case Nil
  then show ?case by simp
next
  case (Cons t ts)
  show ?case
  proof (cases "t = Tag k x")
    case True
    with Cons.prems have "k \<notin> Key ` set ts" by auto
    then have "map_of (store_tags ts (setitem d k x)) k = map_of (setitem d k x) k"
      by (rule store_tags_other)
    with True show ?thesis by (simp add: store_tags_def map_of_setitem)
  next
    case False
    with Cons.prems have "distinct (map Key ts)" "Tag k x \<in> set ts" by auto
    then have "map_of (store_tags ts (setitem d (Key t) (Value t))) k = Some x"
      by (rule Cons.IH)
    then show ?thesis by (simp add: store_tags_def)
  qed
qed

lemma keys_tags_to_add: "map Key (tags_to_add d desired) = map fst (items_to_add d desired)"
  by (simp add: tags_to_add_def split_beta)

lemma nothing_to_add_after_store:
  assumes "distinct (map fst desired)"
  shows "items_to_add (store_tags (tags_to_add d desired) d) desired = []"
proof -
  let ?ts = "tags_to_add d desired"
  have dk: "distinct (map Key ?ts)"
    using assms by (simp add: keys_tags_to_add items_to_add_def distinct_map_filter)
  have "map_of (store_tags ?ts d) k = Some (str v)" if kv: "(k, v) \<in> set desired" for k v
  proof (cases "(k, v) \<in> set (items_to_add d desired)")
    case True
    then have "Tag k (str v) \<in> set ?ts"
      by (force simp: tags_to_add_def)
    with dk show ?thesis by (rule store_tags_stored)
  next
    case False
    with kv have old: "map_of d k = Some (str v)"
      by (auto simp: items_to_add_def split: option.splits)
    have "k \<notin> Key ` set ?ts"
    proof
      assume "k \<in> Key ` set ?ts"
      then have "k \<in> set (map fst (items_to_add d desired))"
        by (simp only: keys_tags_to_add [symmetric] set_map)
      then obtain v' where in': "(k, v') \<in> set (items_to_add d desired)" by auto
      then have "(k, v') \<in> set desired" by (simp add: items_to_add_def)
      with kv assms have "v' = v" by (meson eq_key_imp_eq_value)
      with in' False show False by simp
    qed
    then have "map_of (store_tags ?ts d) k = map_of d k" by (rule store_tags_other)
    with old show ?thesis by simp
  qed
  then show ?thesis
    by (auto simp: items_to_add_def filter_empty_conv)
qed

lemma no_keys_to_remove:
  "tag_keys_to_remove xs desired = [] \<longleftrightarrow>
   (\<forall>(k, a) \<in> set xs. \<not> (case map_of desired k of None \<Rightarrow> False | Some v \<Rightarrow> a = str v))"
  by (auto simp: tag_keys_to_remove_def filter_empty_conv)

lemma nothing_to_remove_after_delete:
  "tag_keys_to_remove (delete_keys (tag_keys_to_remove d desired) d) desired = []"
proof -
  have "\<not> (case map_of desired k of None \<Rightarrow> False | Some v \<Rightarrow> a = str v)"
    if "(k, a) \<in> set d" "k \<notin> set (tag_keys_to_remove d desired)" for k a
  proof
    assume "case map_of desired k of None \<Rightarrow> False | Some v \<Rightarrow> a = str v"
    with that(1) have "k \<in> set (tag_keys_to_remove d desired)"
      by (force simp: tag_keys_to_remove_def)
    with that(2) show False by simp
  qed
  then show ?thesis
    unfolding no_keys_to_remove delete_keys_def by auto
qed

lemma store_ok_add:
  "store_ok s name d \<Longrightarrow> store_ok (s(name \<mapsto> store_tags ts d)) name (store_tags ts d)"
  by (simp add: store_ok_def distinct_store_tags)

lemma store_ok_remove:
  "store_ok s name d \<Longrightarrow> store_ok (s(name \<mapsto> delete_keys ks d)) name (delete_keys ks d)"
  by (simp add: store_ok_def delete_keys_def distinct_map_filter)

lemma present_unchanged:
  "store_ok s name d \<Longrightarrow> items_to_add d desired = [] \<Longrightarrow>
   reconcile io store_client s Present name (Some desired) False =
     (ExitJson False (TagsDict d), [DescribeTags name], s)"
  by (simp add: reconcile_def get_lb_tags_store present_branch_def tag_keys_to_add_def)

lemma absent_unchanged:
  "store_ok s name d \<Longrightarrow> tag_keys_to_remove d desired = [] \<Longrightarrow>
   reconcile io store_client s Absent name (Some desired) False =
     (ExitJson False (TagsDict d), [DescribeTags name], s)"
  by (simp add: reconcile_def get_lb_tags_store absent_branch_def)

lemma present_changed:
  assumes ok: "store_ok s name d" and some: "items_to_add d desired \<noteq> []"
  shows "reconcile io store_client s Present name (Some desired) False =
     (ExitJson True (TagsDict (store_tags (tags_to_add d desired) d)),
      [DescribeTags name, AddTags name (tags_to_add d desired), DescribeTags name],
      s(name \<mapsto> store_tags (tags_to_add d desired) d))"
proof -
  have add: "add_tags store_client s name (tags_to_add d desired) =
             Inr (s(name \<mapsto> store_tags (tags_to_add d desired) d))"
    using ok by (simp add: store_client_def store_ok_def)
  show ?thesis
    using some
    by (simp add: reconcile_def get_lb_tags_store [OF ok] present_branch_def tag_keys_to_add_def
          add get_lb_tags_store [OF store_ok_add [OF ok]])
qed

lemma absent_changed:
  assumes ok: "store_ok s name d" and some: "tag_keys_to_remove d desired \<noteq> []"
  shows "reconcile io store_client s Absent name (Some desired) False =
     (ExitJson True (TagsDict (delete_keys (tag_keys_to_remove d desired) d)),
      [DescribeTags name, RemoveTags name (tag_keys_to_remove d desired), DescribeTags name],
      s(name \<mapsto> delete_keys (tag_keys_to_remove d desired) d))"
proof -
  have rm: "remove_tags store_client s name (tag_keys_to_remove d desired) =
             Inr (s(name \<mapsto> delete_keys (tag_keys_to_remove d desired) d))"
    using ok by (simp add: store_client_def store_ok_def)
  show ?thesis
    using some
    by (simp add: reconcile_def get_lb_tags_store [OF ok] absent_branch_def
          rm get_lb_tags_store [OF store_ok_remove [OF ok]])
qed

text \<open>
  Claim C5, amended. Against the provider that stores tags, on a load balancer it
  knows and with a \<open>desired\<close> dictionary, two runs in a row that are not in check
  mode behave as follows, in present mode and in absent mode alike: the first run
  reports \<open>changed=True\<close> exactly when there is a tag to add (a key to remove), and the
  second run reports \<open>changed=False\<close> with the tags the first one returned, making no
  call but the fetch.
\<close>

theorem second_run_reports_unchanged:
  assumes ok: "store_ok s name d" and dict: "distinct (map fst desired)"
  shows
    "(\<exists>t calls s1.
        reconcile io store_client s Present name (Some desired) False =
          (ExitJson (tags_to_add d desired \<noteq> []) t, calls, s1) \<and>
        reconcile io store_client s1 Present name (Some desired) False =
          (ExitJson False t, [DescribeTags name], s1)) \<and>
     (\<exists>t calls s1.
        reconcile io store_client s Absent name (Some desired) False =
          (ExitJson (tag_keys_to_remove d desired \<noteq> []) t, calls, s1) \<and>
        reconcile io store_client s1 Absent name (Some desired) False =
          (ExitJson False t, [DescribeTags name], s1))"
proof (rule conjI)
  show "\<exists>t calls s1.
        reconcile io store_client s Present name (Some desired) False =
          (ExitJson (tags_to_add d desired \<noteq> []) t, calls, s1) \<and>
        reconcile io store_client s1 Present name (Some desired) False =
          (ExitJson False t, [DescribeTags name], s1)"
  proof (cases "items_to_add d desired = []")
    case True
    then have "tags_to_add d desired = []" by (simp add: tags_to_add_def)
    with present_unchanged [OF ok True] show ?thesis by auto
  next
    case False
    then have ne: "tags_to_add d desired \<noteq> []" by (simp add: tags_to_add_def)
    let ?d1 = "store_tags (tags_to_add d desired) d"
    have again: "reconcile io store_client (s(name \<mapsto> ?d1)) Present name (Some desired) False =
          (ExitJson False (TagsDict ?d1), [DescribeTags name], s(name \<mapsto> ?d1))"
      by (rule present_unchanged [OF store_ok_add [OF ok] nothing_to_add_after_store [OF dict]])
    from present_changed [OF ok False] again ne show ?thesis by auto
  qed
  show "\<exists>t calls s1.
        reconcile io store_client s Absent name (Some desired) False =
          (ExitJson (tag_keys_to_remove d desired \<noteq> []) t, calls, s1) \<and>
        reconcile io store_client s1 Absent name (Some desired) False =
          (ExitJson False t, [DescribeTags name], s1)"
  proof (cases "tag_keys_to_remove d desired = []")
    case True
    with absent_unchanged [OF ok True] show ?thesis by auto
  next
    case False
    let ?d1 = "delete_keys (tag_keys_to_remove d desired) d"
    have again: "reconcile io store_client (s(name \<mapsto> ?d1)) Absent name (Some desired) False =
          (ExitJson False (TagsDict ?d1), [DescribeTags name], s(name \<mapsto> ?d1))"
      by (rule absent_unchanged [OF store_ok_remove [OF ok] nothing_to_remove_after_delete])
    from absent_changed [OF ok False] again False show ?thesis by auto
  qed
qed

theorem second_run_reports_unchanged_witness:
  "store_ok my_lb ''my-lb'' [(''env'', ''prod''), (''tier'', ''web'')] \<and>
   distinct (map fst [(''env'', PStr ''staging'')]) \<and>
   (\<exists>t calls s1.
      reconcile True store_client my_lb Present ''my-lb'' (Some [(''env'', PStr ''staging'')]) False =
        (ExitJson True t, calls, s1) \<and>
      reconcile True store_client s1 Present ''my-lb'' (Some [(''env'', PStr ''staging'')]) False =
        (ExitJson False t, [DescribeTags ''my-lb''], s1))"
proof -
  have d: "distinct (map fst [(''env'', PStr ''staging'')])"
    by simp
  have ne: "tags_to_add [(''env'', ''prod''), (''tier'', ''web'')] [(''env'', PStr ''staging'')] \<noteq> []"
    by (simp add: tags_to_add_def items_to_add_def)
  from second_run_reports_unchanged [OF my_lb_ok d, of True] ne my_lb_ok d
  show ?thesis by simp
qed

end
